theory Spec2Isabelle
  imports Complex_Main "HOL-Library.Sublist"
begin

section \<open>Strings\<close>

text \<open>
  Python \<open>str\<close> values are modelled as \<open>string\<close> (lists of 8-bit characters), one
  \<open>char\<close> per code point, so the model covers texts whose code points are below 256 and
  \<open>length\<close> is Python's \<open>len\<close>.
\<close>

text \<open>\<open>sub in s\<close> on strings: \<open>sub\<close> occurs in \<open>s\<close> as a contiguous run.\<close>

fun contains :: "string \<Rightarrow> string \<Rightarrow> bool" where
  "contains sub [] = (sub = [])"
| "contains sub (c # cs) = (prefix sub (c # cs) \<or> contains sub cs)"

text \<open>
  \<open>str.lower()\<close> on code points below 256: the letters \<open>A\<close> to \<open>Z\<close> and the
  capital letters 192 to 222 other than the multiplication sign 215 move up by 32; every
  other character is kept.
\<close>

definition lower_char :: "char \<Rightarrow> char" where
  "lower_char c =
     (let n = (of_char c :: nat) in
      if (65 \<le> n \<and> n \<le> 90) \<or> (192 \<le> n \<and> n \<le> 222 \<and> n \<noteq> 215)
      then char_of (n + 32) else c)"

definition lower :: "string \<Rightarrow> string" where
  "lower s = map lower_char s"

text \<open>
  What a generator yields is modelled as a list of code points, so that the literals of
  the source, which contain code points above 255, are the strings the code yields.
  \<open>ustr\<close> reads a \<open>string\<close> as such a list.
\<close>

type_synonym ustring = "nat list"

definition ustr :: "string \<Rightarrow> ustring" where
  "ustr s = map of_char s"

section \<open>services/ai\_service.py\<close>

subsection \<open>Error classification\<close>

datatype LLMErrorType =
  RATE_LIMIT | AUTH_ERROR | TIMEOUT | CONTENT_BLOCKED | MODEL_ERROR | NETWORK_ERROR | UNKNOWN

text \<open>An exception is represented by its message \<open>str(error)\<close>.\<close>

definition classify_error :: "string \<Rightarrow> LLMErrorType" where
  "classify_error error =
     (let error_msg = lower error in
      if contains ''rate'' error_msg \<or> contains ''limit'' error_msg \<or> contains ''429'' error
        then RATE_LIMIT
      else if contains ''api_key'' error_msg \<or> contains ''invalid'' error_msg
              \<or> contains ''auth'' error_msg \<or> contains ''401'' error
        then AUTH_ERROR
      else if contains ''timeout'' error_msg \<or> contains ''timed out'' error_msg
        then TIMEOUT
      else if contains ''blocked'' error_msg \<or> contains ''safety'' error_msg
              \<or> contains ''filter'' error_msg
        then CONTENT_BLOCKED
      else if contains ''model'' error_msg
              \<and> (contains ''not found'' error_msg \<or> contains ''unavailable'' error_msg)
        then MODEL_ERROR
      else if contains ''network'' error_msg \<or> contains ''connect'' error_msg
        then NETWORK_ERROR
      else UNKNOWN)"

subsection \<open>Token budget\<close>

definition MAX_TOKEN_BUDGET :: int where
  "MAX_TOKEN_BUDGET = 8000"

definition estimate_tokens :: "string \<Rightarrow> int" where
  "estimate_tokens text = int (length text) div 4"

record ChatMessage =
  role :: string
  content :: string
  timestamp :: "real option"

text \<open>\<open>list.insert(i, x)\<close> for \<open>i \<ge> 0\<close>: an index past the end appends.\<close>

definition list_insert :: "nat \<Rightarrow> 'a \<Rightarrow> 'a list \<Rightarrow> 'a list" where
  "list_insert i x xs = take i xs @ x # drop i xs"

text \<open>
  The loop \<open>for msg in reversed(messages)\<close> of \<open>trim_to_token_budget\<close>; the first
  argument is the reversed list, \<open>break\<close> returns the result built so far.
\<close>

fun trim_loop :: "ChatMessage list \<Rightarrow> int \<Rightarrow> ChatMessage list \<Rightarrow> int \<Rightarrow> ChatMessage list" where
  "trim_loop [] budget result current_tokens = result"
| "trim_loop (msg # rest) budget result current_tokens =
     (let msg_tokens = estimate_tokens (content msg) in
      if current_tokens + msg_tokens \<le> budget
      then trim_loop rest budget
             (list_insert (if result \<noteq> [] then 1 else 0) msg result)
             (current_tokens + msg_tokens)
      else result)"

definition trim_to_token_budget :: "ChatMessage list \<Rightarrow> int \<Rightarrow> ChatMessage list" where
  "trim_to_token_budget messages budget =
     (case messages of
        [] \<Rightarrow> messages
      | m0 # ms \<Rightarrow>
          let total_tokens = sum_list (map (\<lambda>m. estimate_tokens (content m)) messages) in
          if total_tokens \<le> budget then messages
          else if role m0 = ''system''
            then trim_loop (rev ms) budget [m0] (estimate_tokens (content m0))
            else trim_loop (rev messages) budget [] 0)"

definition user_msg :: "string \<Rightarrow> ChatMessage" where
  "user_msg c = \<lparr>role = ''user'', content = c, timestamp = None\<rparr>"

definition system_msg :: "string \<Rightarrow> ChatMessage" where
  "system_msg c = \<lparr>role = ''system'', content = c, timestamp = None\<rparr>"

subsection \<open>Providers and the service\<close>

text \<open>
  One call of a provider's \<open>stream\<close> generator, consumed to its end: the chunks it
  yields, then either normal completion or an exception, given by its message
  \<open>str(e)\<close>.
\<close>

record stream_run =
  chunks :: "ustring list"
  raised :: "string option"

text \<open>
  The abstract class \<open>AIProvider\<close>: \<open>is_available()\<close> and \<open>stream(messages, model,
  temperature)\<close>. What a provider streams is a parameter of the model.
\<close>

record AIProvider =
  is_available :: bool
  stream_of :: "ChatMessage list \<Rightarrow> string \<Rightarrow> real \<Rightarrow> stream_run"

text \<open>\<open>self.providers\<close> is a dict in insertion order: an association list.\<close>

record AIService =
  providers :: "(string \<times> AIProvider) list"
  current_provider :: "string option"
  current_model :: string
  temperature :: real

definition get_provider :: "AIService \<Rightarrow> AIProvider option" where
  "get_provider svc =
     (case current_provider svc of None \<Rightarrow> None | Some name \<Rightarrow> map_of (providers svc) name)"

definition get_available_providers :: "AIService \<Rightarrow> string list" where
  "get_available_providers svc = map fst (filter (\<lambda>(name, p). is_available p) (providers svc))"

text \<open>\<open>not provider or not provider.is_available()\<close>\<close>

definition unusable :: "AIProvider option \<Rightarrow> bool" where
  "unusable provider = (case provider of None \<Rightarrow> True | Some p \<Rightarrow> \<not> is_available p)"

text \<open>\<open>d.get(key, default)\<close> on a dict of strings.\<close>

definition dict_get :: "(string \<times> string) list \<Rightarrow> string \<Rightarrow> string \<Rightarrow> string" where
  "dict_get d k dflt = (case map_of d k of None \<Rightarrow> dflt | Some v \<Rightarrow> v)"

text \<open>
  \<open>_build_messages\<close>; \<open>history\<close> is a list of dicts (\<open>None\<close> is the empty list), and
  \<open>history[-10:]\<close> keeps its last ten entries.
\<close>

definition build_messages ::
  "string \<Rightarrow> (string \<times> string) list list \<Rightarrow> string option \<Rightarrow> ChatMessage list" where
  "build_messages prompt history system_prompt =
     (case system_prompt of
        None \<Rightarrow> []
      | Some s \<Rightarrow> if s = [] then [] else [system_msg s])
     @ map (\<lambda>msg. \<lparr>role = dict_get msg ''role'' ''user'',
                     content = dict_get msg ''content'' [],
                     timestamp = None\<rparr>)
         (drop (length history - 10) history)
     @ [user_msg prompt]"

text \<open>
  The user-facing messages, code point by code point as the source file has them: each
  literal starts with a few characters other than ASCII and a space.
\<close>

definition no_provider_message :: ustring where
  "no_provider_message =
     [0xE2, 0x161, 0xA0, 0xEF, 0xB8] @ ustr '' No AI provider configured.''"

definition error_message :: "LLMErrorType \<Rightarrow> string \<Rightarrow> ustring" where
  "error_message error_type e =
     (if error_type = RATE_LIMIT
        then [0xF0, 0x178, 0x201C, 0x160]
             @ ustr '' Rate limit reached. Please wait a moment and try again.''
      else if error_type = AUTH_ERROR
        then [0xF0, 0x178, 0x201D, 0x2018]
             @ ustr '' API key error. Please check your configuration.''
      else if error_type = CONTENT_BLOCKED
        then [0xF0, 0x178, 0x161, 0xAB] @ ustr '' Content was blocked by safety filters.''
      else if error_type = TIMEOUT
        then [0xE2, 0xB1, 0xEF, 0xB8] @ ustr '' Request timed out. Please try again.''
      else [0xE2, 0x152] @ ustr '' An error occurred: '' @ ustr e)"

text \<open>
  The first loop of \<open>stream\<close>, run when the current provider is unusable: \<open>provider\<close> is
  rebound to each other provider in turn, until one is available.
\<close>

fun pick_fallback :: "AIService \<Rightarrow> string list \<Rightarrow> AIProvider option \<Rightarrow> AIProvider option" where
  "pick_fallback svc [] provider = provider"
| "pick_fallback svc (fallback_name # names) provider =
     (if Some fallback_name \<noteq> current_provider svc
      then (let p = map_of (providers svc) fallback_name in
            if \<not> unusable p then p else pick_fallback svc names p)
      else pick_fallback svc names provider)"

text \<open>
  The provider that \<open>stream\<close> calls first: the current provider, or the one picked by
  the first loop when the current provider is unusable and fallback is enabled.
\<close>

definition select_provider :: "AIService \<Rightarrow> bool \<Rightarrow> AIProvider option" where
  "select_provider svc enable_fallback =
     (let provider = get_provider svc in
      if unusable provider \<and> enable_fallback
      then pick_fallback svc (get_available_providers svc) provider
      else provider)"

definition fallback_model :: "string \<Rightarrow> string" where
  "fallback_model fallback_name =
     (if fallback_name = ''groq'' then ''llama-3.3-70b-versatile'' else ''gemini-2.0-flash-exp'')"

text \<open>
  What a call of \<open>stream\<close> does, consumed to its end: the strings it yields, and the
  provider names it logs with \<open>Trying fallback provider\<close>, in order.
\<close>

record stream_result =
  yielded :: "ustring list"
  fallback_log :: "string list"

text \<open>
  The fallback loop in the \<open>except\<close> branch, over the names of
  \<open>get_available_providers()\<close>: the chunks yielded, the fallbacks tried, and whether one
  of them completed (the \<open>return\<close>).
\<close>

fun try_fallbacks ::
  "AIService \<Rightarrow> ChatMessage list \<Rightarrow> string list \<Rightarrow> ustring list \<times> string list \<times> bool" where
  "try_fallbacks svc messages [] = ([], [], False)"
| "try_fallbacks svc messages (fallback_name # names) =
     (if Some fallback_name \<noteq> current_provider svc
      then (case map_of (providers svc) fallback_name of
              None \<Rightarrow> try_fallbacks svc messages names
            | Some fallback_provider \<Rightarrow>
                if is_available fallback_provider
                then (let run = stream_of fallback_provider messages
                                  (fallback_model fallback_name) (temperature svc) in
                      case raised run of
                        None \<Rightarrow> (chunks run, [fallback_name], True)
                      | Some fallback_e \<Rightarrow>
                          (case try_fallbacks svc messages names of
                             (ys, tried, ok) \<Rightarrow> (chunks run @ ys, fallback_name # tried, ok)))
                else try_fallbacks svc messages names)
      else try_fallbacks svc messages names)"

definition stream ::
  "AIService \<Rightarrow> string \<Rightarrow> (string \<times> string) list list \<Rightarrow> string option \<Rightarrow> bool
     \<Rightarrow> stream_result" where
  "stream svc prompt history system_prompt enable_fallback =
     (case select_provider svc enable_fallback of
        None \<Rightarrow> \<lparr>yielded = [no_provider_message], fallback_log = []\<rparr>
      | Some p \<Rightarrow>
          if \<not> is_available p
          then \<lparr>yielded = [no_provider_message], fallback_log = []\<rparr>
          else
            (let messages = trim_to_token_budget
                              (build_messages prompt history system_prompt) MAX_TOKEN_BUDGET;
                 run = stream_of p messages (current_model svc) (temperature svc)
             in case raised run of
                  None \<Rightarrow> \<lparr>yielded = chunks run, fallback_log = []\<rparr>
                | Some e \<Rightarrow>
                    (let error_type = classify_error e in
                     case (if enable_fallback
                           then try_fallbacks svc messages (get_available_providers svc)
                           else ([], [], False)) of
                       (ys, tried, ok) \<Rightarrow>
                         if ok then \<lparr>yielded = chunks run @ ys, fallback_log = tried\<rparr>
                         else \<lparr>yielded = chunks run @ ys @ [error_message error_type e],
                                fallback_log = tried\<rparr>)))"

text \<open>
  Names used to state what the fallback loop does. The providers it can reach are the
  available ones other than the current provider, in dict order; \<open>fallback_runs\<close> is what
  each of them streams for the messages of the request, with its default model; the loop
  goes through them up to the first whose stream completes.
\<close>

definition fallback_candidates :: "AIService \<Rightarrow> string list" where
  "fallback_candidates svc =
     filter (\<lambda>name. Some name \<noteq> current_provider svc
                     \<and> \<not> unusable (map_of (providers svc) name))
       (get_available_providers svc)"

definition fallback_run :: "AIService \<Rightarrow> ChatMessage list \<Rightarrow> string \<Rightarrow> stream_run" where
  "fallback_run svc messages name =
     (case map_of (providers svc) name of
        None \<Rightarrow> \<lparr>chunks = [], raised = None\<rparr>
      | Some fp \<Rightarrow> stream_of fp messages (fallback_model name) (temperature svc))"

definition fallback_runs :: "AIService \<Rightarrow> ChatMessage list \<Rightarrow> bool \<Rightarrow> stream_run list" where
  "fallback_runs svc messages enable_fallback =
     (if enable_fallback then map (fallback_run svc messages) (fallback_candidates svc) else [])"

definition failed_first :: "stream_run list \<Rightarrow> nat" where
  "failed_first runs = length (takeWhile (\<lambda>r. raised r \<noteq> None) runs)"

definition request_messages ::
  "string \<Rightarrow> (string \<times> string) list list \<Rightarrow> string option \<Rightarrow> ChatMessage list" where
  "request_messages prompt history system_prompt =
     trim_to_token_budget (build_messages prompt history system_prompt) MAX_TOKEN_BUDGET"

text \<open>Providers and services for concrete runs.\<close>

definition completing :: "ustring list \<Rightarrow> AIProvider" where
  "completing cs = \<lparr>is_available = True,
                    stream_of = (\<lambda>messages model temp. \<lparr>chunks = cs, raised = None\<rparr>)\<rparr>"

definition failing :: "ustring list \<Rightarrow> string \<Rightarrow> AIProvider" where
  "failing cs e = \<lparr>is_available = True,
                   stream_of = (\<lambda>messages model temp. \<lparr>chunks = cs, raised = Some e\<rparr>)\<rparr>"


definition two_providers :: "AIProvider \<Rightarrow> AIProvider \<Rightarrow> AIService" where
  "two_providers groq gemini =
     \<lparr>providers = [(''groq'', groq), (''gemini'', gemini)],
      current_provider = Some ''groq'',
      current_model = ''llama-3.3-70b-versatile'',
      temperature = 0.7\<rparr>"

section \<open>services/vector\_store.py\<close>

text \<open>
  The attributes \<open>_texts\<close>, \<open>_metadata\<close> and \<open>_embeddings\<close> are the fields
  \<open>store_texts\<close>, \<open>store_metadata\<close> and \<open>store_embeddings\<close>. With FAISS the rows are
  held by the index instead of \<open>_embeddings\<close>; \<open>store_embeddings\<close> stands for the rows
  held, in either place.
\<close>

datatype meta_value = MStr string | MInt int

type_synonym metadata = "(string \<times> meta_value) list"

datatype py_error = ValueError | IndexError | AssertionError

text \<open>
  The FAISS index is outside the repository. \<open>self._index.search(query, k)\<close> is a
  parameter: from the rows held, the query and \<open>k\<close> it gives the pairs of
  \<open>zip(scores[0], indices[0])\<close>, or raises.
\<close>

type_synonym 'f index_search = "'f list list \<Rightarrow> 'f list \<Rightarrow> int \<Rightarrow> py_error + ('f \<times> int) list"

text \<open>
  The store, over a type \<open>'f\<close> of numbers. \<open>faiss\<close> is \<open>None\<close> when the import of
  \<open>faiss\<close> fails (the numpy fallback), and the search of the index otherwise.
\<close>

record 'f VectorStore =
  embedding_dim :: int
  faiss :: "'f index_search option"
  store_texts :: "string list"
  store_metadata :: "metadata list"
  store_embeddings :: "'f list list"

definition VectorStore_init :: "int \<Rightarrow> 'f index_search option \<Rightarrow> 'f VectorStore" where
  "VectorStore_init d index =
     \<lparr>embedding_dim = d, faiss = index, store_texts = [], store_metadata = [],
      store_embeddings = []\<rparr>"

text \<open>
  \<open>add\<close> computes in float64, and in float32 for the index. Its arithmetic is a
  parameter, so that nothing is assumed of rounding, overflow or underflow: \<open>fl_norm\<close> is
  \<open>np.linalg.norm\<close> of one row as computed, \<open>fl_div\<close> the division, \<open>fl_zero\<close> and
  \<open>fl_one\<close> the numbers 0 and 1, \<open>fl_to_float32\<close> the conversion \<open>astype(np.float32)\<close>.
\<close>

record 'f float_ops =
  fl_norm :: "'f list \<Rightarrow> 'f"
  fl_div :: "'f \<Rightarrow> 'f \<Rightarrow> 'f"
  fl_zero :: 'f
  fl_one :: 'f
  fl_to_float32 :: "'f \<Rightarrow> 'f"

text \<open>One row of \<open>embeddings / np.where(norms == 0, 1, norms)\<close>.\<close>

definition normalize_row :: "'f float_ops \<Rightarrow> 'f list \<Rightarrow> 'f list" where
  "normalize_row ops v =
     (let n = fl_norm ops v; d = (if n = fl_zero ops then fl_one ops else n)
      in map (\<lambda>x. fl_div ops x d) v)"

definition add ::
  "'f float_ops \<Rightarrow> 'f VectorStore \<Rightarrow> string list \<Rightarrow> 'f list list \<Rightarrow> metadata list option
     \<Rightarrow> 'f VectorStore" where
  "add ops st new_texts new_embeddings new_metadata =
     (if length new_texts = 0 then st
      else (let normalized = map (normalize_row ops) new_embeddings in
            st\<lparr>store_embeddings := store_embeddings st @
                   (case faiss st of
                      Some index \<Rightarrow> map (map (fl_to_float32 ops)) normalized
                    | None \<Rightarrow> normalized),
                store_texts := store_texts st @ new_texts,
                store_metadata := store_metadata st @
                  (case new_metadata of
                     None \<Rightarrow> map (\<lambda>_. []) new_texts
                   | Some m \<Rightarrow> if m = [] then map (\<lambda>_. []) new_texts else m)\<rparr>))"



text \<open>
  \<open>search\<close> is modelled on stores of reals, with the norm, the division and the dot
  product of the query as exact operations.
\<close>

type_synonym vec = "real list"

record SearchResult =
  sr_text :: string
  sr_source :: meta_value
  sr_chunk_id :: meta_value
  score :: real
  sr_metadata :: metadata

text \<open>\<open>np.linalg.norm\<close> of the query.\<close>

definition l2norm :: "vec \<Rightarrow> real" where
  "l2norm v = sqrt (sum_list (map (\<lambda>x. x * x) v))"

definition dot :: "vec \<Rightarrow> vec \<Rightarrow> real" where
  "dot a b = sum_list (map2 (*) a b)"

text \<open>The slice \<open>xs[:k]\<close>; a negative \<open>k\<close> counts from the end.\<close>

definition slice_to :: "int \<Rightarrow> 'a list \<Rightarrow> 'a list" where
  "slice_to k xs = (if 0 \<le> k then take (nat k) xs else take (nat (int (length xs) + k)) xs)"

definition meta_get :: "metadata \<Rightarrow> string \<Rightarrow> meta_value \<Rightarrow> meta_value" where
  "meta_get d k dflt = (case map_of d k of None \<Rightarrow> dflt | Some v \<Rightarrow> v)"

text \<open>
  The loop over \<open>zip(scores, indices)\<close>. An index of the FAISS result can be \<open>-1\<close>;
  \<open>self._texts[idx]\<close> raises \<open>IndexError\<close> past the end of \<open>_texts\<close>.
\<close>

fun build_results ::
  "real VectorStore \<Rightarrow> real \<Rightarrow> (real \<times> int) list \<Rightarrow> py_error + SearchResult list" where
  "build_results st min_score [] = Inr []"
| "build_results st min_score ((s, idx) # rest) =
     (if idx < 0 \<or> s < min_score then build_results st min_score rest
      else if int (length (store_texts st)) \<le> idx then Inl IndexError
      else (let meta = (if idx < int (length (store_metadata st))
                        then store_metadata st ! nat idx else [])
            in case build_results st min_score rest of
                 Inl e \<Rightarrow> Inl e
               | Inr results \<Rightarrow>
                   Inr (\<lparr>sr_text = store_texts st ! nat idx,
                         sr_source = meta_get meta ''source'' (MStr ''unknown''),
                         sr_chunk_id = meta_get meta ''chunk_id'' (MInt idx),
                         score = s,
                         sr_metadata = meta\<rparr> # results)))"

text \<open>
  \<open>search\<close>. Its first argument stands for \<open>np.argsort\<close>, called with the default sort,
  which is not stable: the order it gives to equal scores is not fixed, so the function
  is a parameter. \<open>np.dot\<close> raises \<open>ValueError\<close> unless every stored row has the length
  of the query.
\<close>

definition search ::
  "(real list \<Rightarrow> nat list) \<Rightarrow> real VectorStore \<Rightarrow> vec \<Rightarrow> int \<Rightarrow> real
     \<Rightarrow> py_error + SearchResult list" where
  "search argsort st query_embedding top_k min_score =
     (if length (store_texts st) = 0 then Inr []
      else (let query_norm = l2norm query_embedding in
            if query_norm > 0
            then (let query_normalized = map (\<lambda>x. x / query_norm) query_embedding in
                  case faiss st of
                    Some index \<Rightarrow>
                      (let k = min top_k (int (length (store_texts st))) in
                       case index (store_embeddings st) query_normalized k of
                         Inl e \<Rightarrow> Inl e
                       | Inr hits \<Rightarrow> build_results st min_score hits)
                  | None \<Rightarrow>
                      if store_embeddings st = []
                         \<or> list_ex (\<lambda>e. length e \<noteq> length query_embedding) (store_embeddings st)
                      then Inl ValueError
                      else (let scores = map (\<lambda>e. dot e query_normalized) (store_embeddings st);
                                indices = slice_to top_k (rev (argsort scores))
                            in build_results st min_score
                                 (map (\<lambda>i. (scores ! i, int i)) indices)))
            else Inr []))"

text \<open>
  What the two libraries promise. \<open>np.argsort\<close> returns the indices of its argument,
  each once, in ascending order of score. The search of a FAISS index returns at most
  \<open>k\<close> pairs, in descending order of score.
\<close>

definition is_argsort :: "(real list \<Rightarrow> nat list) \<Rightarrow> bool" where
  "is_argsort f =
     (\<forall>scores. distinct (f scores) \<and> set (f scores) = {0..<length scores}
                \<and> sorted (map ((!) scores) (f scores)))"


text \<open>
  Two functions that \<open>np.argsort\<close> can be: one leaves equal scores in ascending order of
  index, the other in descending order of index.
\<close>

definition stable_argsort :: "real list \<Rightarrow> nat list" where
  "stable_argsort scores = sort_key (\<lambda>i. scores ! i) [0..<length scores]"

definition descending_ties_argsort :: "real list \<Rightarrow> nat list" where
  "descending_ties_argsort scores = rev (sort_key (\<lambda>i. - (scores ! i)) [0..<length scores])"


text \<open>
  The arithmetic of \<open>add\<close> on exact reals, for concrete runs on rows where float64 is
  exact.
\<close>

definition real_ops :: "real float_ops" where
  "real_ops = \<lparr>fl_norm = l2norm, fl_div = (/), fl_zero = 0, fl_one = 1,
                fl_to_float32 = (\<lambda>x. x)\<rparr>"

definition two_equal_rows :: "real VectorStore" where
  "two_equal_rows =
     add real_ops (VectorStore_init 2 None) [''first'', ''second''] [[1, 0], [1, 0]] None"

definition two_distinct_rows :: "real VectorStore" where
  "two_distinct_rows =
     add real_ops (VectorStore_init 2 None) [''first'', ''second''] [[1, 0], [0, 1]] None"


definition first_result :: SearchResult where
  "first_result = \<lparr>sr_text = ''first'', sr_source = MStr ''unknown'', sr_chunk_id = MInt 0,
                    score = 1, sr_metadata = []\<rparr>"

definition second_result :: SearchResult where
  "second_result = \<lparr>sr_text = ''second'', sr_source = MStr ''unknown'', sr_chunk_id = MInt 1,
                     score = 1, sr_metadata = []\<rparr>"

section \<open>services/chunking\_service.py\<close>

text \<open>
  Whitespace as \<open>str.strip()\<close> and the pattern \<open>\s\<close> see it, on code points below 256:
  tab to carriage return, the four separators 28 to 31, space, 133 and 160.
\<close>

definition is_space :: "char \<Rightarrow> bool" where
  "is_space c = (let n = (of_char c :: nat) in
                   (9 \<le> n \<and> n \<le> 13) \<or> (28 \<le> n \<and> n \<le> 32) \<or> n = 133 \<or> n = 160)"

definition newline :: char where
  "newline = CHR 0x0A"

definition strip :: "string \<Rightarrow> string" where
  "strip s = rev (dropWhile is_space (rev (dropWhile is_space s)))"

text \<open>
  The length of the match of \<open>\n\s*\n\<close> at the head of a string, if there is one: a
  newline, then the whitespace run after it up to its last newline (\<open>\s*\<close> is greedy and
  gives back characters until a newline follows).
\<close>

definition match_paragraph_sep :: "string \<Rightarrow> nat option" where
  "match_paragraph_sep s =
     (case s of
        [] \<Rightarrow> None
      | c # cs \<Rightarrow>
          if c \<noteq> newline then None
          else (let k = length (dropWhile (\<lambda>x. x \<noteq> newline) (rev (takeWhile is_space cs)))
                in if k = 0 then None else Some (Suc k)))"

text \<open>
  \<open>re.split(r'\n\s*\n', text)\<close>: scan from the left, cut at every match; \<open>piece\<close> is
  the text since the last cut.
\<close>

function split_paragraph_seps :: "string \<Rightarrow> string \<Rightarrow> string list" where
  "split_paragraph_seps piece s =
     (case match_paragraph_sep s of
        Some k \<Rightarrow> piece # split_paragraph_seps [] (drop k s)
      | None \<Rightarrow> (case s of
                   [] \<Rightarrow> [piece]
                 | c # cs \<Rightarrow> split_paragraph_seps (piece @ [c]) cs))"
  by pat_completeness auto
termination
  by (relation "measure (\<lambda>(piece, s). length s)")
     (auto simp: match_paragraph_sep_def split: list.splits if_splits)

definition split_into_paragraphs :: "string \<Rightarrow> string list" where
  "split_into_paragraphs text =
     map strip (filter (\<lambda>p. strip p \<noteq> []) (split_paragraph_seps [] text))"

text \<open>
  \<open>re.split(r'(?<=[.!?])\s+', text)\<close>: a cut is a maximal whitespace run that follows
  one of the three marks; \<open>prev\<close> is the character before the head of the string.
\<close>

definition match_sentence_sep :: "char option \<Rightarrow> string \<Rightarrow> nat option" where
  "match_sentence_sep prev s =
     (case prev of
        None \<Rightarrow> None
      | Some p \<Rightarrow>
          if p = CHR ''.'' \<or> p = CHR ''!'' \<or> p = CHR ''?''
          then (let k = length (takeWhile is_space s) in if k = 0 then None else Some k)
          else None)"

function split_sentence_seps :: "char option \<Rightarrow> string \<Rightarrow> string \<Rightarrow> string list" where
  "split_sentence_seps prev piece s =
     (case match_sentence_sep prev s of
        Some k \<Rightarrow> piece # split_sentence_seps (Some (s ! (k - 1))) [] (drop k s)
      | None \<Rightarrow> (case s of
                   [] \<Rightarrow> [piece]
                 | c # cs \<Rightarrow> split_sentence_seps (Some c) (piece @ [c]) cs))"
  by pat_completeness auto
termination
proof (relation "measure (\<lambda>(prev, piece, s). length s)")
  fix prev :: "char option" and piece s :: string and k :: nat
  assume "match_sentence_sep prev s = Some k"
  then have "0 < k" and "s \<noteq> []"
    by (auto simp: match_sentence_sep_def Let_def split: option.splits if_splits)
  then show "((Some (s ! (k - 1)), [], drop k s), prev, piece, s)
               \<in> measure (\<lambda>(prev, piece, s). length s)"
    by simp
qed auto

definition split_into_sentences :: "string \<Rightarrow> string list" where
  "split_into_sentences text =
     map strip (filter (\<lambda>p. strip p \<noteq> []) (split_sentence_seps None [] text))"

record Chunk =
  c_text :: string
  start_idx :: int
  end_idx :: int
  c_source :: string
  c_chunk_id :: int
  token_count :: int

text \<open>
  The service. \<open>tokenizer\<close> is the \<open>tiktoken\<close> encoding when the import succeeds, given
  by the number of tokens it produces, and \<open>None\<close> otherwise. The encoding raises
  \<open>ValueError\<close> on a text that contains one of its special tokens: with a tokenizer,
  the model covers the texts on which it returns.
\<close>

record ChunkingService =
  target_chunk_size :: int
  min_chunk_size :: int
  max_chunk_size :: int
  overlap_tokens :: int
  tokenizer :: "(string \<Rightarrow> nat) option"

definition ChunkingService_init ::
  "int \<Rightarrow> int \<Rightarrow> int \<Rightarrow> int \<Rightarrow> (string \<Rightarrow> nat) option \<Rightarrow> ChunkingService" where
  "ChunkingService_init target_size min_size max_size overlap tok =
     \<lparr>target_chunk_size = target_size, min_chunk_size = min_size,
      max_chunk_size = max_size, overlap_tokens = overlap, tokenizer = tok\<rparr>"

definition count_tokens :: "ChunkingService \<Rightarrow> string \<Rightarrow> int" where
  "count_tokens svc text =
     (case tokenizer svc of
        Some encode_len \<Rightarrow> int (encode_len text)
      | None \<Rightarrow> int (length text) div 4)"

text \<open>The loop of \<open>_get_overlap_text\<close> over \<open>reversed(sentences)\<close>.\<close>

fun overlap_loop :: "ChunkingService \<Rightarrow> string list \<Rightarrow> string \<Rightarrow> string" where
  "overlap_loop svc [] overlap_text = overlap_text"
| "overlap_loop svc (sentence # rest) overlap_text =
     (let test_text = (if overlap_text \<noteq> [] then sentence @ '' '' @ overlap_text else sentence)
      in if count_tokens svc test_text \<le> overlap_tokens svc
         then overlap_loop svc rest test_text
         else overlap_text)"

definition get_overlap_text :: "ChunkingService \<Rightarrow> string \<Rightarrow> string" where
  "get_overlap_text svc text =
     (if text = [] then []
      else strip (overlap_loop svc (rev (split_into_sentences text)) []))"

text \<open>The local variables of \<open>chunk_text\<close> that its loop updates.\<close>

record chunk_state =
  chunks_acc :: "Chunk list"
  current_chunk_text :: string
  current_chunk_start :: int
  chunk_id :: int
  char_position :: int

definition paragraph_sep :: string where
  "paragraph_sep = [newline, newline]"

text \<open>One iteration of \<open>for para in paragraphs\<close>.\<close>

definition chunk_step :: "ChunkingService \<Rightarrow> string \<Rightarrow> chunk_state \<Rightarrow> string \<Rightarrow> chunk_state" where
  "chunk_step svc source st para =
     (let para_tokens = count_tokens svc para;
          current_tokens = count_tokens svc (current_chunk_text st);
          st1 =
            (if current_chunk_text st \<noteq> [] \<and> current_tokens + para_tokens > max_chunk_size svc
             then (let st0 =
                         (if current_tokens \<ge> min_chunk_size svc
                          then st\<lparr>chunks_acc := chunks_acc st @
                                    [\<lparr>c_text = strip (current_chunk_text st),
                                      start_idx = current_chunk_start st,
                                      end_idx = char_position st,
                                      c_source = source,
                                      c_chunk_id = chunk_id st,
                                      token_count = current_tokens\<rparr>],
                                  chunk_id := chunk_id st + 1\<rparr>
                          else st);
                       overlap_text = get_overlap_text svc (current_chunk_text st)
                   in st0\<lparr>current_chunk_text :=
                            (if overlap_text \<noteq> [] then overlap_text @ paragraph_sep @ para
                             else para),
                          current_chunk_start := char_position st\<rparr>)
             else (if current_chunk_text st \<noteq> []
                   then st\<lparr>current_chunk_text := current_chunk_text st @ paragraph_sep @ para\<rparr>
                   else st\<lparr>current_chunk_text := para,
                           current_chunk_start := char_position st\<rparr>))
      in st1\<lparr>char_position := char_position st + int (length para) + 2\<rparr>)"

definition chunk_loop :: "ChunkingService \<Rightarrow> string \<Rightarrow> string list \<Rightarrow> chunk_state" where
  "chunk_loop svc source paragraphs =
     foldl (chunk_step svc source)
       \<lparr>chunks_acc = [], current_chunk_text = [], current_chunk_start = 0,
        chunk_id = 0, char_position = 0\<rparr>
       paragraphs"

text \<open>The chunk built after the loop from what is left in the buffer.\<close>

definition trailing_chunk :: "ChunkingService \<Rightarrow> string \<Rightarrow> chunk_state \<Rightarrow> Chunk" where
  "trailing_chunk svc source st =
     \<lparr>c_text = strip (current_chunk_text st),
      start_idx = current_chunk_start st,
      end_idx = char_position st,
      c_source = source,
      c_chunk_id = chunk_id st,
      token_count = count_tokens svc (current_chunk_text st)\<rparr>"

definition chunk_text :: "ChunkingService \<Rightarrow> string \<Rightarrow> string \<Rightarrow> Chunk list" where
  "chunk_text svc text source =
     (if text = [] \<or> strip text = [] then []
      else (let st = chunk_loop svc source (split_into_paragraphs text) in
            if current_chunk_text st \<noteq> []
               \<and> count_tokens svc (current_chunk_text st) \<ge> min_chunk_size svc
            then chunks_acc st @ [trailing_chunk svc source st]
            else chunks_acc st))"

text \<open>A text of two paragraphs, of twelve and of eight characters.\<close>

definition two_paragraphs :: string where
  "two_paragraphs = ''aaaaaaaaaaaa'' @ paragraph_sep @ ''bbbbbbbb''"

definition first_paragraph_chunk :: Chunk where
  "first_paragraph_chunk =
     \<lparr>c_text = ''aaaaaaaaaaaa'', start_idx = 0, end_idx = 14, c_source = ''document'',
      c_chunk_id = 0, token_count = 3\<rparr>"

definition second_paragraph_chunk :: Chunk where
  "second_paragraph_chunk =
     \<lparr>c_text = ''bbbbbbbb'', start_idx = 14, end_idx = 24, c_source = ''document'',
      c_chunk_id = 1, token_count = 2\<rparr>"

section \<open>services/embedding\_service.py\<close>

text \<open>
  The service with what it consults: \<open>md5\<close> is \<open>hashlib.md5(...).hexdigest()\<close>,
  \<open>encode\<close> the sentence-transformers model on one text (a batch is encoded row by row),
  \<open>cache\<close> the dict \<open>_cache\<close> and \<open>disk\<close> the loadable \<open>.npy\<close> files of the cache
  directory, both by cache key. Saving a file is taken to succeed.
\<close>

record EmbeddingService =
  model_name :: string
  use_cache :: bool
  md5 :: "string \<Rightarrow> string"
  encode :: "string \<Rightarrow> vec"
  cache :: "string \<rightharpoonup> vec"
  disk :: "string \<rightharpoonup> vec"

definition get_cache_key :: "EmbeddingService \<Rightarrow> string \<Rightarrow> string" where
  "get_cache_key svc text = md5 svc (model_name svc @ '':'' @ text)"

definition get_cached_embedding :: "EmbeddingService \<Rightarrow> string \<Rightarrow> EmbeddingService \<times> vec option" where
  "get_cached_embedding svc text =
     (if \<not> use_cache svc then (svc, None)
      else (let cache_key = get_cache_key svc text in
            case cache svc cache_key of
              Some e \<Rightarrow> (svc, Some e)
            | None \<Rightarrow>
                (case disk svc cache_key of
                   Some e \<Rightarrow> (svc\<lparr>cache := (cache svc)(cache_key \<mapsto> e)\<rparr>, Some e)
                 | None \<Rightarrow> (svc, None))))"

definition cache_embedding :: "EmbeddingService \<Rightarrow> string \<Rightarrow> vec \<Rightarrow> EmbeddingService" where
  "cache_embedding svc text embedding =
     (if \<not> use_cache svc then svc
      else (let cache_key = get_cache_key svc text in
            svc\<lparr>cache := (cache svc)(cache_key \<mapsto> embedding),
                disk := (disk svc)(cache_key \<mapsto> embedding)\<rparr>))"

text \<open>\<open>xs.index(x)\<close> for an \<open>x\<close> that occurs in \<open>xs\<close>: its first position.\<close>

fun index_of :: "'a \<Rightarrow> 'a list \<Rightarrow> nat" where
  "index_of x [] = 0"
| "index_of x (y # ys) = (if x = y then 0 else Suc (index_of x ys))"

text \<open>
  The first loop of \<open>embed_texts\<close>, over \<open>enumerate(texts)\<close>: the service, the list
  \<open>embeddings\<close> of pairs, \<open>texts_to_embed\<close> and \<open>indices_to_embed\<close>.
\<close>

fun partition_cached ::
  "EmbeddingService \<Rightarrow> (nat \<times> string) list \<Rightarrow> (nat \<times> vec) list \<Rightarrow> string list \<Rightarrow> nat list
     \<Rightarrow> EmbeddingService \<times> (nat \<times> vec) list \<times> string list \<times> nat list" where
  "partition_cached svc [] embs texts_to_embed indices_to_embed =
     (svc, embs, texts_to_embed, indices_to_embed)"
| "partition_cached svc ((i, text) # rest) embs texts_to_embed indices_to_embed =
     (case get_cached_embedding svc text of
        (svc', Some cached) \<Rightarrow>
          partition_cached svc' rest (embs @ [(i, cached)]) texts_to_embed indices_to_embed
      | (svc', None) \<Rightarrow>
          partition_cached svc' rest embs (texts_to_embed @ [text]) (indices_to_embed @ [i]))"

text \<open>The second loop, over \<open>zip(texts_to_embed, new_embeddings)\<close>.\<close>

fun merge_new ::
  "string list \<Rightarrow> nat list \<Rightarrow> EmbeddingService \<Rightarrow> (string \<times> vec) list \<Rightarrow> (nat \<times> vec) list
     \<Rightarrow> EmbeddingService \<times> (nat \<times> vec) list" where
  "merge_new texts_to_embed indices_to_embed svc [] embs = (svc, embs)"
| "merge_new texts_to_embed indices_to_embed svc ((text, embedding) # rest) embs =
     merge_new texts_to_embed indices_to_embed (cache_embedding svc text embedding) rest
       (embs @ [(indices_to_embed ! index_of text texts_to_embed, embedding)])"

definition embed_texts :: "EmbeddingService \<Rightarrow> string list \<Rightarrow> EmbeddingService \<times> vec list" where
  "embed_texts svc texts =
     (if texts = [] then (svc, [])
      else (case partition_cached svc (zip [0..<length texts] texts) [] [] [] of
              (svc1, embs, texts_to_embed, indices_to_embed) \<Rightarrow>
                (case (if texts_to_embed \<noteq> []
                       then merge_new texts_to_embed indices_to_embed svc1
                              (zip texts_to_embed (map (encode svc1) texts_to_embed)) embs
                       else (svc1, embs)) of
                   (svc2, embs2) \<Rightarrow> (svc2, map snd (sort_key fst embs2)))))"

text \<open>A service with empty caches whose model maps a text to its length.\<close>

definition length_embedder :: EmbeddingService where
  "length_embedder =
     \<lparr>model_name = ''all-MiniLM-L6-v2'', use_cache = True, md5 = (\<lambda>s. s),
      encode = (\<lambda>t. [real (length t)]), cache = Map.empty, disk = Map.empty\<rparr>"

section \<open>Properties\<close>

subsection \<open>Fallback between providers\<close>

lemma try_fallbacks_runs:
  "try_fallbacks svc messages names =
     (let cands = filter (\<lambda>name. Some name \<noteq> current_provider svc
                                  \<and> \<not> unusable (map_of (providers svc) name)) names;
          runs = map (fallback_run svc messages) cands;
          k = failed_first runs
      in (concat (map chunks (take (Suc k) runs)), take (Suc k) cands, k < length runs))"
proof (induction names)
  case Nil
  then show ?case by (simp add: failed_first_def)
next
  case (Cons a names)
  show ?case
  proof (cases "Some a \<noteq> current_provider svc \<and> \<not> unusable (map_of (providers svc) a)")
    case True
    then obtain fp where fp: "map_of (providers svc) a = Some fp" "is_available fp"
      by (auto simp: unusable_def split: option.splits)
    then have r: "fallback_run svc messages a
                    = stream_of fp messages (fallback_model a) (temperature svc)"
      by (simp add: fallback_run_def)
    show ?thesis
    proof (cases "raised (fallback_run svc messages a)")
      case None
      with True fp r show ?thesis
        by (simp add: failed_first_def Let_def)
    next
      case (Some fe)
      with True fp r Cons.IH show ?thesis
        by (simp add: failed_first_def Let_def)
    qed
  next
    case False
    then have "try_fallbacks svc messages (a # names) = try_fallbacks svc messages names"
      by (auto simp: unusable_def split: option.splits)
    with False Cons.IH show ?thesis by (auto simp: Let_def)
  qed
qed

lemma stream_after_failure:
  assumes "select_provider svc enable_fallback = Some p" and "is_available p"
    and "stream_of p (request_messages prompt history sp) (current_model svc) (temperature svc)
           = \<lparr>chunks = cs, raised = Some e\<rparr>"
  shows "stream svc prompt history sp enable_fallback =
     \<lparr>yielded = cs
        @ concat (map chunks
            (take (Suc (failed_first
                     (fallback_runs svc (request_messages prompt history sp) enable_fallback)))
               (fallback_runs svc (request_messages prompt history sp) enable_fallback)))
        @ (if failed_first (fallback_runs svc (request_messages prompt history sp) enable_fallback)
                < length (fallback_runs svc (request_messages prompt history sp) enable_fallback)
           then [] else [error_message (classify_error e) e]),
      fallback_log =
        take (Suc (failed_first
                (fallback_runs svc (request_messages prompt history sp) enable_fallback)))
          (if enable_fallback then fallback_candidates svc else [])\<rparr>"
proof (cases enable_fallback)
  case True
  with assms show ?thesis
    by (simp add: stream_def request_messages_def[symmetric] try_fallbacks_runs Let_def
        fallback_runs_def fallback_candidates_def)
next
  case False
  with assms show ?thesis
    by (simp add: stream_def request_messages_def[symmetric] Let_def fallback_runs_def
        failed_first_def)
qed

text \<open>
  C2 (fails on the code as stated). The \<open>except\<close> branch classifies the error and then
  runs the fallback loop without looking at the class: an error classified
  \<open>AUTH_ERROR\<close> from the primary provider is followed by a fallback to the other provider,
  whose output the caller receives.
\<close>

theorem stream_auth_error_falls_back:
  "classify_error ''invalid api_key'' = AUTH_ERROR \<and>
   stream (two_providers (failing [] ''invalid api_key'') (completing [ustr ''ok''])) ''hi'' [] None
     True
     = \<lparr>yielded = [ustr ''ok''], fallback_log = [''gemini'']\<rparr>"
  by (simp add: classify_error_def lower_def lower_char_def stream_def select_provider_def
      two_providers_def failing_def completing_def get_provider_def unusable_def
      get_available_providers_def fallback_model_def)

text \<open>
  C2, amended. When the stream of the provider that \<open>stream\<close> calls first raises,
  whatever the message of the error and so whatever its class: a fallback provider is
  tried if and only if \<open>enable_fallback\<close> is set and another available provider exists;
  the providers tried are the available providers other than the current one, in dict
  order, up to the first whose stream completes; and the caller receives the chunks of
  the first stream, then the chunks of every fallback tried, then, only if no fallback
  stream completed, one error message, which is all that the class of the error selects.
\<close>

theorem stream_fallback_on_any_error:
  assumes "select_provider svc enable_fallback = Some p" and "is_available p"
    and "raised (stream_of p (request_messages prompt history sp) (current_model svc)
                   (temperature svc)) = Some e"
  shows "(fallback_log (stream svc prompt history sp enable_fallback) \<noteq> []
            \<longleftrightarrow> enable_fallback \<and> fallback_candidates svc \<noteq> [])
       \<and> fallback_log (stream svc prompt history sp enable_fallback)
           = take (Suc (failed_first
                     (fallback_runs svc (request_messages prompt history sp) enable_fallback)))
               (if enable_fallback then fallback_candidates svc else [])
       \<and> yielded (stream svc prompt history sp enable_fallback)
           = chunks (stream_of p (request_messages prompt history sp) (current_model svc)
                       (temperature svc))
             @ concat (map chunks
                 (take (Suc (failed_first
                          (fallback_runs svc (request_messages prompt history sp) enable_fallback)))
                    (fallback_runs svc (request_messages prompt history sp) enable_fallback)))
             @ (if failed_first
                     (fallback_runs svc (request_messages prompt history sp) enable_fallback)
                   < length (fallback_runs svc (request_messages prompt history sp) enable_fallback)
                then [] else [error_message (classify_error e) e])"
proof -
  let ?run = "stream_of p (request_messages prompt history sp) (current_model svc) (temperature svc)"
  from assms(3) have "?run = \<lparr>chunks = chunks ?run, raised = Some e\<rparr>"
    by (cases ?run) simp
  from stream_after_failure[OF assms(1,2) this]
  show ?thesis by (cases enable_fallback; cases "fallback_candidates svc") simp_all
qed

theorem stream_fallback_on_any_error_witness:
  "classify_error ''blocked by safety filter'' = CONTENT_BLOCKED \<and>
   fallback_log (stream (two_providers (failing [] ''blocked by safety filter'')
                   (completing [ustr ''ok''])) ''hi'' [] None True) = [''gemini''] \<and>
   yielded (stream (two_providers (failing [] ''blocked by safety filter'')
                   (completing [ustr ''ok''])) ''hi'' [] None True) = [ustr ''ok'']"
proof -
  let ?svc = "two_providers (failing [] ''blocked by safety filter'') (completing [ustr ''ok''])"
  let ?p = "failing [] ''blocked by safety filter''"
  have h1: "select_provider ?svc True = Some ?p"
    by (simp add: select_provider_def get_provider_def two_providers_def unusable_def failing_def)
  have h2: "is_available ?p"
    by (simp add: failing_def)
  have h3: "raised (stream_of ?p (request_messages ''hi'' [] None) (current_model ?svc)
                      (temperature ?svc)) = Some ''blocked by safety filter''"
    by (simp add: failing_def)
  have c: "fallback_candidates ?svc = [''gemini'']"
    by (simp add: fallback_candidates_def get_available_providers_def two_providers_def
        failing_def completing_def unusable_def)
  have r: "fallback_runs ?svc (request_messages ''hi'' [] None) True
             = [\<lparr>chunks = [ustr ''ok''], raised = None\<rparr>]"
    unfolding fallback_runs_def c
    by (simp add: fallback_run_def two_providers_def completing_def)
  have k: "classify_error ''blocked by safety filter'' = CONTENT_BLOCKED"
    by (simp add: classify_error_def lower_def lower_char_def)
  have pc: "chunks (stream_of ?p (request_messages ''hi'' [] None) (current_model ?svc)
                      (temperature ?svc)) = []"
    by (simp add: failing_def)
  from stream_fallback_on_any_error[OF h1 h2 h3, unfolded r c pc] k
  show ?thesis
    by (simp add: failed_first_def)
qed




subsection \<open>Token-budget trimming\<close>

text \<open>
  With a system message first, the kept turns follow it in their original order: the
  result is the system message and a suffix of the other turns.
\<close>

lemma trim_loop_behind_system:
  "\<exists>k. trim_loop xs budget (m0 # acc) t = m0 # rev (take k xs) @ acc"
proof (induction xs arbitrary: acc t)
  case Nil
  then show ?case by simp
next
  case (Cons msg rest)
  show ?case
  proof (cases "t + estimate_tokens (content msg) \<le> budget")
    case True
    from Cons.IH[of "msg # acc" "t + estimate_tokens (content msg)"]
    obtain k where "trim_loop rest budget (m0 # msg # acc) (t + estimate_tokens (content msg))
                      = m0 # rev (take k rest) @ msg # acc" by blast
    then have "trim_loop (msg # rest) budget (m0 # acc) t
                 = m0 # rev (take (Suc k) (msg # rest)) @ acc"
      using True by (simp add: list_insert_def)
    then show ?thesis by blast
  next
    case False
    then have "trim_loop (msg # rest) budget (m0 # acc) t = m0 # rev (take 0 (msg # rest)) @ acc"
      by simp
    then show ?thesis by blast
  qed
qed

lemma trim_to_token_budget_with_system:
  assumes "role m0 = ''system''"
    and "budget < sum_list (map (\<lambda>m. estimate_tokens (content m)) (m0 # ms))"
  shows "\<exists>n. trim_to_token_budget (m0 # ms) budget = m0 # drop n ms"
proof -
  from trim_loop_behind_system[of "rev ms" budget m0 "[]" "estimate_tokens (content m0)"]
  obtain k where k: "trim_loop (rev ms) budget [m0] (estimate_tokens (content m0))
                       = m0 # rev (take k (rev ms))" by auto
  have "rev (take k (rev ms)) = drop (length ms - k) ms"
    by (simp add: rev_take)
  with k assms show ?thesis
    by (auto simp: trim_to_token_budget_def Let_def)
qed

text \<open>
  C6 (fails on the code). Without a system message the loop inserts the newest turn at
  index 0 and every older turn at index 1, so the newest turn comes first and the kept
  turns are not in their original order: three one-token user turns with budget 2 give
  the third turn followed by the second.
\<close>

theorem trim_to_token_budget_no_system_order:
  "trim_to_token_budget [user_msg ''aaaa'', user_msg ''bbbb'', user_msg ''cccc''] 2
     = [user_msg ''cccc'', user_msg ''bbbb'']"
  by (simp add: trim_to_token_budget_def estimate_tokens_def list_insert_def user_msg_def)

subsection \<open>Vector store: search\<close>


lemma descending_ties_argsort_is_argsort: "is_argsort descending_ties_argsort"
proof -
  have "sorted (map ((!) scores) (rev (sort_key (\<lambda>i. - (scores ! i)) [0..<length scores])))"
    for scores :: "real list"
  proof -
    have "sorted (map (\<lambda>i. - (scores ! i)) (sort_key (\<lambda>i. - (scores ! i)) [0..<length scores]))"
      by (rule sorted_sort_key)
    then have "sorted_wrt (\<lambda>a b. scores ! b \<le> scores ! a)
                 (sort_key (\<lambda>i. - (scores ! i)) [0..<length scores])"
      by (simp add: sorted_wrt_map)
    then show ?thesis
      by (simp add: rev_map[symmetric] sorted_wrt_rev sorted_wrt_map)
  qed
  then show ?thesis
    by (simp add: is_argsort_def descending_ties_argsort_def atLeast_upt)
qed





text \<open>
  Where the scores differ, every ascending argsort gives the same indices: on the store
  of two different rows a search with \<open>top_k = -1\<close> returns one result whatever
  \<open>np.argsort\<close> does with equal scores. Where the scores are equal, the order of the
  results follows the sort: the two sorts give the two orders.
\<close>

lemma argsort_one_zero:
  assumes "is_argsort f"
  shows "f [1, 0] = [1, 0]"
proof -
  let ?xs = "f [1, 0 :: real]"
  from assms have d: "distinct ?xs" and "set ?xs = {0..<length [1, 0 :: real]}"
    and o: "sorted (map ((!) [1, 0 :: real]) ?xs)"
    by (simp_all add: is_argsort_def)
  then have s: "set ?xs = {0..<2}" by (simp add: numeral_2_eq_2)
  from d s have "length ?xs = 2"
    using distinct_card[of ?xs] by simp
  then obtain a b where ab: "?xs = [a, b]"
    by (cases ?xs; cases "tl ?xs") auto
  with d s have "a \<noteq> b" "a < 2" "b < 2" by auto
  then have "a = 0 \<and> b = 1 \<or> a = 1 \<and> b = 0" by auto
  with o ab show ?thesis by auto
qed

lemma search_negative_top_k_any_argsort:
  assumes "is_argsort f"
  shows "search f two_distinct_rows [1, 0] (- 1) 0 = Inr [first_result]"
  by (simp add: search_def two_distinct_rows_def add_def VectorStore_init_def normalize_row_def
      real_ops_def l2norm_def dot_def argsort_one_zero[OF assms] slice_to_def meta_get_def
      first_result_def)

lemma search_tie_order_follows_argsort:
  "search stable_argsort two_equal_rows [1, 0] 5 0 = Inr [second_result, first_result] \<and>
   search descending_ties_argsort two_equal_rows [1, 0] 5 0 = Inr [first_result, second_result]"
  by (simp add: search_def two_equal_rows_def add_def VectorStore_init_def normalize_row_def
      real_ops_def l2norm_def dot_def stable_argsort_def descending_ties_argsort_def slice_to_def
      meta_get_def upt_rec first_result_def second_result_def)




text \<open>
  C10. A query whose norm is zero makes \<open>search\<close> return the empty list, whatever the
  store holds: the test \<open>query_norm > 0\<close> fails before any division or product, and
  before the choice between the index and numpy.
\<close>

theorem search_zero_norm_query:
  assumes "l2norm query_embedding = 0"
  shows "search argsort st query_embedding top_k min_score = Inr []"
  using assms by (simp add: search_def)

theorem search_zero_norm_query_witness:
  "l2norm [0, 0] = 0 \<and> store_texts two_equal_rows \<noteq> [] \<and>
   search stable_argsort two_equal_rows [0, 0] 5 0 = Inr []"
proof -
  have h: "l2norm [0, 0] = 0" by (simp add: l2norm_def)
  have n: "store_texts two_equal_rows \<noteq> []"
    by (simp add: two_equal_rows_def add_def VectorStore_init_def)
  from search_zero_norm_query[OF h, of stable_argsort two_equal_rows 5 0] h n
  show ?thesis by simp
qed

subsection \<open>Vector store: normalisation\<close>








subsection \<open>Chunking\<close>

lemma strip_empty_iff: "strip s = [] \<longleftrightarrow> (\<forall>c \<in> set s. is_space c)"
proof
  assume "strip s = []"
  then have "dropWhile is_space (rev (dropWhile is_space s)) = []"
    by (simp add: strip_def)
  then have d: "\<forall>c \<in> set (dropWhile is_space s). is_space c"
    by (simp add: dropWhile_eq_Nil_conv)
  have t: "\<forall>c \<in> set (takeWhile is_space s). is_space c"
    by (auto dest: set_takeWhileD)
  show "\<forall>c \<in> set s. is_space c"
  proof
    fix c assume "c \<in> set s"
    then have "c \<in> set (takeWhile is_space s @ dropWhile is_space s)" by simp
    then show "is_space c"
      using d t by (auto simp del: takeWhile_dropWhile_id)
  qed
next
  assume "\<forall>c \<in> set s. is_space c"
  then show "strip s = []"
    by (auto simp: strip_def dropWhile_eq_Nil_conv dest: set_dropWhileD)
qed

lemma match_paragraph_sep_spaces:
  assumes "match_paragraph_sep s = Some k"
  shows "0 < k \<and> k \<le> length s \<and> (\<forall>c \<in> set (take k s). is_space c)"
proof -
  from assms obtain cs where s: "s = newline # cs"
    by (auto simp: match_paragraph_sep_def split: list.splits if_splits)
  let ?w = "takeWhile is_space cs"
  let ?k = "length (dropWhile (\<lambda>x. x \<noteq> newline) (rev ?w))"
  from assms s have k: "k = Suc ?k" "?k \<noteq> 0"
    by (auto simp: match_paragraph_sep_def Let_def split: if_splits)
  have le: "?k \<le> length ?w"
    using length_dropWhile_le[of "\<lambda>x. x \<noteq> newline" "rev ?w"] by simp
  have "take ?k cs = take ?k (?w @ dropWhile is_space cs)"
    by simp
  also have "\<dots> = take ?k ?w"
    using le by (simp del: takeWhile_dropWhile_id)
  finally have "take ?k cs = take ?k ?w" .
  then have "\<forall>c \<in> set (take ?k cs). is_space c"
    by (auto dest!: in_set_takeD set_takeWhileD)
  moreover have "is_space newline" by (simp add: is_space_def newline_def)
  moreover have "length ?w \<le> length cs" by (rule length_takeWhile_le)
  ultimately show ?thesis using k s le by auto
qed

lemma split_paragraph_seps_nonspace:
  "filter (\<lambda>c. \<not> is_space c) (concat (split_paragraph_seps piece s))
     = filter (\<lambda>c. \<not> is_space c) (piece @ s)"
proof (induction piece s rule: split_paragraph_seps.induct)
  case (1 piece s)
  show ?case
  proof (cases "match_paragraph_sep s")
    case (Some k)
    from match_paragraph_sep_spaces[OF Some]
    have sp: "filter (\<lambda>c. \<not> is_space c) (take k s) = []"
      by (simp add: filter_empty_conv)
    have "filter (\<lambda>c. \<not> is_space c) s
            = filter (\<lambda>c. \<not> is_space c) (take k s @ drop k s)" by simp
    also have "\<dots> = filter (\<lambda>c. \<not> is_space c) (drop k s)"
      using sp by (simp del: append_take_drop_id)
    finally have "filter (\<lambda>c. \<not> is_space c) s = filter (\<lambda>c. \<not> is_space c) (drop k s)" .
    with "1.IH"(2)[OF Some] Some show ?thesis
      by (subst split_paragraph_seps.simps) simp
  next
    case None
    show ?thesis
    proof (cases s)
      case Nil
      with None show ?thesis by (subst split_paragraph_seps.simps) simp
    next
      case (Cons c cs)
      with "1.IH"(1)[OF None Cons] None show ?thesis
        by (subst split_paragraph_seps.simps) simp
    qed
  qed
qed

lemma split_into_paragraphs_nonempty:
  assumes "strip text \<noteq> []"
  shows "split_into_paragraphs text \<noteq> []"
proof -
  from assms obtain c where c: "c \<in> set text" "\<not> is_space c"
    by (auto simp: strip_empty_iff)
  then have "c \<in> set (filter (\<lambda>c. \<not> is_space c) ([] @ text))" by simp
  then have "c \<in> set (filter (\<lambda>c. \<not> is_space c) (concat (split_paragraph_seps [] text)))"
    by (simp only: split_paragraph_seps_nonspace)
  then obtain p where "p \<in> set (split_paragraph_seps [] text)" "c \<in> set p"
    by auto
  with c have "p \<in> set (filter (\<lambda>p. strip p \<noteq> []) (split_paragraph_seps [] text))"
    by (auto simp: strip_empty_iff)
  then show ?thesis
    by (auto simp: split_into_paragraphs_def filter_empty_conv)
qed

lemma split_into_paragraphs_each_nonempty:
  "\<forall>p \<in> set (split_into_paragraphs text). p \<noteq> []"
  by (auto simp: split_into_paragraphs_def)

lemma chunk_step_buffer_nonempty:
  "para \<noteq> [] \<Longrightarrow> current_chunk_text (chunk_step svc source st para) \<noteq> []"
  by (simp add: chunk_step_def Let_def)

lemma chunk_loop_buffer_nonempty:
  assumes "paragraphs \<noteq> []" and "\<forall>p \<in> set paragraphs. p \<noteq> []"
  shows "current_chunk_text (chunk_loop svc source paragraphs) \<noteq> []"
proof -
  from assms(1) obtain ps p where "paragraphs = ps @ [p]"
    by (metis rev_exhaust)
  with assms(2) show ?thesis
    by (simp add: chunk_loop_def chunk_step_buffer_nonempty)
qed

lemma chunk_step_min_tokens:
  assumes "\<forall>c \<in> set (chunks_acc st). min_chunk_size svc \<le> token_count c"
  shows "\<forall>c \<in> set (chunks_acc (chunk_step svc source st para)). min_chunk_size svc \<le> token_count c"
  using assms by (auto simp: chunk_step_def Let_def)

lemma foldl_chunk_step_min_tokens:
  assumes "\<forall>c \<in> set (chunks_acc st). min_chunk_size svc \<le> token_count c"
  shows "\<forall>c \<in> set (chunks_acc (foldl (chunk_step svc source) st paragraphs)).
           min_chunk_size svc \<le> token_count c"
  using assms
proof (induction paragraphs arbitrary: st)
  case Nil
  then show ?case by simp
next
  case (Cons p ps)
  have "\<forall>c \<in> set (chunks_acc (chunk_step svc source st p)). min_chunk_size svc \<le> token_count c"
    by (rule chunk_step_min_tokens[OF Cons.prems])
  from Cons.IH[OF this] show ?case by simp
qed

lemma chunk_text_min_tokens:
  "\<forall>c \<in> set (chunk_text svc text source). min_chunk_size svc \<le> token_count c"
proof -
  have "\<forall>c \<in> set (chunks_acc (chunk_loop svc source ps)). min_chunk_size svc \<le> token_count c" for ps
    unfolding chunk_loop_def by (rule foldl_chunk_step_min_tokens) simp
  then show ?thesis
    by (auto simp: chunk_text_def Let_def trailing_chunk_def)
qed




text \<open>
  C4 (fails on the code as stated). After the loop the buffer becomes a chunk only if its
  token count reaches \<open>min_chunk_size\<close>: with the default sizes the text \<open>hello\<close>, one
  token, gives no chunk at all.
\<close>

theorem chunk_text_drops_small_trailing_chunk:
  "strip ''hello'' = ''hello'' \<and>
   chunk_text (ChunkingService_init 500 100 800 50 None) ''hello'' ''document'' = []"
  by code_simp

text \<open>
  C4, amended. For every text that is not blank and every configuration, the buffer left
  after the loop is not empty, and \<open>chunk_text\<close> returns the chunks closed in the loop
  followed by the chunk of that buffer if and only if the token count of the buffer is at
  least \<open>min_chunk_size\<close>; a smaller trailing chunk is dropped.
\<close>

theorem chunk_text_trailing_chunk:
  assumes "strip text \<noteq> []"
  shows "current_chunk_text (chunk_loop svc source (split_into_paragraphs text)) \<noteq> [] \<and>
         chunk_text svc text source
           = chunks_acc (chunk_loop svc source (split_into_paragraphs text))
             @ (if min_chunk_size svc
                     \<le> count_tokens svc
                          (current_chunk_text (chunk_loop svc source (split_into_paragraphs text)))
                then [trailing_chunk svc source (chunk_loop svc source (split_into_paragraphs text))]
                else [])"
proof -
  have ne: "current_chunk_text (chunk_loop svc source (split_into_paragraphs text)) \<noteq> []"
    by (rule chunk_loop_buffer_nonempty)
       (simp_all add: split_into_paragraphs_nonempty[OF assms] split_into_paragraphs_each_nonempty)
  from assms have "text \<noteq> []" by (auto simp: strip_def)
  with assms ne show ?thesis
    by (simp add: chunk_text_def Let_def)
qed

theorem chunk_text_trailing_chunk_witness:
  "strip ''hello'' \<noteq> [] \<and>
   chunk_text (ChunkingService_init 2 1 2 0 None) ''hello'' ''document''
     = [\<lparr>c_text = ''hello'', start_idx = 0, end_idx = 7, c_source = ''document'',
         c_chunk_id = 0, token_count = 1\<rparr>]"
proof -
  have h: "strip ''hello'' \<noteq> []" by code_simp
  have l: "chunk_loop (ChunkingService_init 2 1 2 0 None) ''document''
             (split_into_paragraphs ''hello'')
           = \<lparr>chunks_acc = [], current_chunk_text = ''hello'', current_chunk_start = 0,
              chunk_id = 0, char_position = 7\<rparr>"
    by code_simp
  have t: "count_tokens (ChunkingService_init 2 1 2 0 None) ''hello'' = 1"
    by code_simp
  have m: "min_chunk_size (ChunkingService_init 2 1 2 0 None) = 1"
    by (simp add: ChunkingService_init_def)
  have s: "strip ''hello'' = ''hello''"
    by code_simp
  from chunk_text_trailing_chunk[OF h, of "ChunkingService_init 2 1 2 0 None" "''document''"] h
  show ?thesis
    unfolding l by (simp add: t m s trailing_chunk_def)
qed

text \<open>
  C5 (fails on the code as stated). A chunk is closed when the next paragraph would not
  fit, whatever its own size: with \<open>min_size = 1\<close>, \<open>target_size = max_size = 2\<close> and no
  overlap, a first paragraph of three tokens is returned as a chunk of three tokens, and
  it is not the last chunk.
\<close>

theorem chunk_text_oversized_chunk:
  "max_chunk_size (ChunkingService_init 2 1 2 0 None) = 2 \<and>
   chunk_text (ChunkingService_init 2 1 2 0 None) two_paragraphs ''document''
     = [first_paragraph_chunk, second_paragraph_chunk] \<and>
   token_count first_paragraph_chunk = 3"
  by code_simp

text \<open>
  C5, amended. For every text and configuration, every chunk that \<open>chunk_text\<close> returns,
  the last one included, has a token count of at least \<open>min_chunk_size\<close>; no chunk is
  bounded by \<open>max_chunk_size\<close>.
\<close>

theorem chunk_text_min_size:
  "\<forall>c \<in> set (chunk_text svc text source). min_chunk_size svc \<le> token_count c"
  by (rule chunk_text_min_tokens)

theorem chunk_text_min_size_witness:
  "chunk_text (ChunkingService_init 2 1 2 0 None) two_paragraphs ''document''
     = [first_paragraph_chunk, second_paragraph_chunk] \<and>
   min_chunk_size (ChunkingService_init 2 1 2 0 None) \<le> token_count first_paragraph_chunk \<and>
   min_chunk_size (ChunkingService_init 2 1 2 0 None) \<le> token_count second_paragraph_chunk"
proof -
  have h: "chunk_text (ChunkingService_init 2 1 2 0 None) two_paragraphs ''document''
             = [first_paragraph_chunk, second_paragraph_chunk]"
    by code_simp
  from chunk_text_min_size[of "ChunkingService_init 2 1 2 0 None" two_paragraphs "''document''"]
  show ?thesis unfolding h by simp
qed




subsection \<open>Embedding a batch\<close>

text \<open>The output of \<open>embed_texts\<close> has one row for each input text.\<close>

lemma partition_cached_length:
  "partition_cached svc its embs tte ite = (svc', embs', tte', ite')
   \<Longrightarrow> length embs' + length tte' = length embs + length tte + length its"
proof (induction its arbitrary: svc embs tte ite)
  case Nil
  then show ?case by simp
next
  case (Cons it its)
  obtain i t where it: "it = (i, t)" by (cases it)
  obtain s c where g: "get_cached_embedding svc t = (s, c)" by (cases "get_cached_embedding svc t")
  show ?case
  proof (cases c)
    case None
    with Cons.prems it g
    have "partition_cached s its embs (tte @ [t]) (ite @ [i]) = (svc', embs', tte', ite')"
      by simp
    from Cons.IH[OF this] show ?thesis by simp
  next
    case (Some e)
    with Cons.prems it g
    have "partition_cached s its (embs @ [(i, e)]) tte ite = (svc', embs', tte', ite')"
      by simp
    from Cons.IH[OF this] show ?thesis by simp
  qed
qed

lemma merge_new_length:
  "length (snd (merge_new tte ite svc zs embs)) = length embs + length zs"
  by (induction zs arbitrary: svc embs) auto

lemma embed_texts_length:
  "length (snd (embed_texts svc texts)) = length texts"
proof (cases "texts = []")
  case True
  then show ?thesis by (simp add: embed_texts_def)
next
  case False
  obtain svc1 embs tte ite where
    p: "partition_cached svc (zip [0..<length texts] texts) [] [] [] = (svc1, embs, tte, ite)"
    by (metis prod_cases4)
  from partition_cached_length[OF p]
  have l: "length embs + length tte = length texts" by simp
  show ?thesis
  proof (cases "tte = []")
    case True
    with False p l show ?thesis by (simp add: embed_texts_def)
  next
    case False
    obtain svc2 embs2 where
      m: "merge_new tte ite svc1 (zip tte (map (encode svc1) tte)) embs = (svc2, embs2)"
      by (cases "merge_new tte ite svc1 (zip tte (map (encode svc1) tte)) embs")
    from merge_new_length[of tte ite svc1 "zip tte (map (encode svc1) tte)" embs] m
    have "length embs2 = length embs + length tte" by simp
    with False \<open>texts \<noteq> []\<close> p m l show ?thesis by (simp add: embed_texts_def)
  qed
qed

text \<open>
  C7 (fails on the code). A text that occurs twice among the uncached texts gets the
  index of its first occurrence both times (\<open>texts_to_embed.index(text)\<close>): after the
  sort the two embeddings of \<open>a\<close> come first and the embedding of \<open>bb\<close> last, so the
  second output is not the embedding of the second input.
\<close>

theorem embed_texts_duplicates_misordered:
  "snd (embed_texts length_embedder [''a'', ''bb'', ''a'']) = [[1], [1], [2]] \<and>
   map (encode length_embedder) [''a'', ''bb'', ''a''] = [[1], [2], [1]]"
  by (simp add: embed_texts_def length_embedder_def get_cached_embedding_def get_cache_key_def
      cache_embedding_def upt_rec)

end
